theory Spec2Isabelle
  imports Complex_Main "HOL-Library.AList"
begin

section \<open>Data model\<close>

text \<open>
  A 2-D numpy array: its rows, and its column count kept beside them so that an array
  with no rows still has a shape such as \<open>(0, 3)\<close>. Every row of a well-formed array has
  \<open>ncols\<close> elements. The element type is left open: the program only moves elements.
\<close>

record 'a ndarray =
  ncols :: nat
  rows :: "'a list list"

definition shape :: "'a ndarray \<Rightarrow> nat \<times> nat" where
  "shape a = (length (rows a), ncols a)"


text \<open>
  The parent coordinate file \<open>pcf\<close>, an xarray Dataset after \<open>squeeze\<close>: named 2-D
  variables on the dimensions \<open>(y, x)\<close>, the size of the dimension \<open>x\<close>
  (\<open>pcf['x'].size\<close>), and for each dimension its index of integer labels when the file
  gives the dimension a coordinate (\<open>None\<close> for a dimension without coordinate). An
  index has one label for each row, or column, of every variable.
\<close>

record 'a dataset =
  variables :: "string \<rightharpoonup> 'a ndarray"
  y_index :: "int list option"
  x_index :: "int list option"
  x_size :: nat

text \<open>The exceptions that the modelled code raises.\<close>

datatype error = ValueError string | IndexError | KeyError | UnboundLocalError

section \<open>Constants of the source\<close>

definition PACIFIC_Y_INDICES :: "int \<times> int" where
  "PACIFIC_Y_INDICES = (7550, -2)"

definition ATLANTIC_Y_INDICES :: "int \<times> int" where
  "ATLANTIC_Y_INDICES = (7350, -1)"

definition PACIFIC_X_INDICES :: "int \<times> int" where
  "PACIFIC_X_INDICES = (1500, 5900)"

definition T_VARS :: "string list" where
  "T_VARS = [''nav_lon'', ''nav_lat'', ''glamt'', ''gphit'', ''e1t'', ''e2t'']"

definition U_VARS :: "string list" where
  "U_VARS = [''glamu'', ''gphiu'', ''e1u'', ''e2u'']"

definition V_VARS :: "string list" where
  "V_VARS = [''glamv'', ''gphiv'', ''e1v'', ''e2v'']"

definition F_VARS :: "string list" where
  "F_VARS = [''glamf'', ''gphif'', ''e1f'', ''e2f'']"

section \<open>The library operations the source calls\<close>

text \<open>
  \<open>numpy.flip(m)\<close> with no axis reverses the order of the elements along every axis and
  keeps the shape.
\<close>

definition np_flip :: "'a ndarray \<Rightarrow> 'a ndarray" where
  "np_flip a = a\<lparr>rows := rev (map rev (rows a))\<rparr>"

text \<open>
  A Python slice \<open>lo:hi\<close> over \<open>n\<close> positions: a negative bound counts from the end, and
  both bounds are clipped to \<open>0..n\<close>; the positions taken are \<open>start, ..., stop - 1\<close>.
\<close>

definition slice_bound :: "nat \<Rightarrow> int \<Rightarrow> nat" where
  "slice_bound n i = (if i < 0 then nat (max (i + int n) 0) else min (nat i) n)"

definition py_slice :: "nat \<Rightarrow> int \<Rightarrow> int \<Rightarrow> nat list" where
  "py_slice n lo hi = [slice_bound n lo ..< slice_bound n hi]"

text \<open>
  A label slice over an index of increasing labels takes the positions whose label lies
  between the two bounds, both included. This is what pandas selects on an index whose
  labels increase; on other indexes it can select differently or raise, and the theorems
  about the selected positions assume increasing labels.
\<close>

definition label_slice :: "int list \<Rightarrow> int \<Rightarrow> int \<Rightarrow> nat list" where
  "label_slice labels lo hi = [i \<leftarrow> [0 ..< length labels]. lo \<le> labels ! i \<and> labels ! i \<le> hi]"

definition increasing :: "int list option \<Rightarrow> bool" where
  "increasing idx = (case idx of None \<Rightarrow> True | Some labels \<Rightarrow> sorted labels)"

text \<open>
  \<open>DataArray.sel\<close> with a slice on one dimension: by label where the dimension has an
  index, and by position (as \<open>isel\<close> does) where it has none. The model covers an index
  whose labels increase, where neither kind of slice raises.
\<close>

definition indexer :: "int list option \<Rightarrow> nat \<Rightarrow> int \<times> int \<Rightarrow> nat list" where
  "indexer idx n s =
     (case idx of None \<Rightarrow> py_slice n (fst s) (snd s)
      | Some labels \<Rightarrow> label_slice labels (fst s) (snd s))"

text \<open>
  \<open>pcf[var].sel(y=slice(y0, y1), x=slice(x0, x1)).values\<close> for the variable's array \<open>a\<close>:
  the rows at the selected row positions, each cut to the selected column positions.
\<close>

definition sel :: "'a dataset \<Rightarrow> 'a ndarray \<Rightarrow> int \<times> int \<Rightarrow> int \<times> int \<Rightarrow> 'a ndarray" where
  "sel pcf a ys xs =
     (let rs = indexer (y_index pcf) (length (rows a)) ys;
          cs = indexer (x_index pcf) (ncols a) xs
      in \<lparr>ncols = length cs, rows = map (\<lambda>i. map (\<lambda>j. rows a ! i ! j) cs) rs\<rparr>)"

text \<open>
  The four subscripts \<open>extent[0], ..., extent[3]\<close> that every slicing expression of
  \<open>grid_selector\<close> reads; a list with fewer than four entries raises \<open>IndexError\<close>.
\<close>

definition subscripts :: "int list \<Rightarrow> error + (int \<times> int \<times> int \<times> int)" where
  "subscripts extent =
     (if length extent < 4 then Inl IndexError
      else Inr (extent ! 0, extent ! 1, extent ! 2, extent ! 3))"

section \<open>grid_selector\<close>

text \<open>
  \<open>var in pcf\<close>: membership in a Dataset holds for the data variables and for the
  coordinate variables, so for the name of a dimension that carries an index; a dimension
  without coordinate is no member.
\<close>

definition contains :: "'a dataset \<Rightarrow> string \<Rightarrow> bool" where
  "contains pcf var \<longleftrightarrow>
     variables pcf var \<noteq> None
     \<or> (var = ''y'' \<and> y_index pcf \<noteq> None)
     \<or> (var = ''x'' \<and> x_index pcf \<noteq> None)"

text \<open>
  \<open>pcf[var].sel(y=slice(y0, y1), x=slice(x0, x1)).values\<close> for a member \<open>var\<close>: the slice
  of a data variable; a coordinate variable has one dimension only, and selecting on the
  other one raises \<open>KeyError\<close>.
\<close>

definition sel_values ::
  "'a dataset \<Rightarrow> string \<Rightarrow> int \<times> int \<Rightarrow> int \<times> int \<Rightarrow> error + 'a ndarray" where
  "sel_values pcf var ys xs =
     (case variables pcf var of
        Some a \<Rightarrow> Inr (sel pcf a ys xs)
      | None \<Rightarrow> Inl KeyError)"

definition flipped :: "error + 'a ndarray \<Rightarrow> error + 'a ndarray" where
  "flipped r = (case r of Inl err \<Rightarrow> Inl err | Inr w \<Rightarrow> Inr (np_flip w))"

text \<open>
  The function of the source, branch by branch. The subscripts of \<open>extent\<close> are
  evaluated before \<open>sel\<close> is called. A member that is in none of the four lists leaves
  \<open>grid_array\<close> unassigned in the Pacific branch, and \<open>return grid_array\<close> raises
  \<open>UnboundLocalError\<close>.
\<close>

definition grid_selector ::
  "'a dataset \<Rightarrow> string \<Rightarrow> int list \<Rightarrow> bool \<Rightarrow> error + 'a ndarray" where
  "grid_selector pcf var extent pac_patch =
     (if \<not> contains pcf var
      then Inl (ValueError (''Variable '' @ var @ '' not found in the dataset.''))
      else if pac_patch then
        if var \<in> set T_VARS then
          (case subscripts extent of Inl err \<Rightarrow> Inl err
           | Inr (e0, e1, e2, e3) \<Rightarrow> flipped (sel_values pcf var (e0, e1) (e2, e3)))
        else if var \<in> set U_VARS then
          (case subscripts extent of Inl err \<Rightarrow> Inl err
           | Inr (e0, e1, e2, e3) \<Rightarrow> flipped (sel_values pcf var (e0, e1) (e2 - 1, e3 - 1)))
        else if var \<in> set V_VARS then
          (case subscripts extent of Inl err \<Rightarrow> Inl err
           | Inr (e0, e1, e2, e3) \<Rightarrow> flipped (sel_values pcf var (e0 - 1, e1 - 1) (e2, e3)))
        else if var \<in> set F_VARS then
          (case subscripts extent of Inl err \<Rightarrow> Inl err
           | Inr (e0, e1, e2, e3) \<Rightarrow>
               flipped (sel_values pcf var (e0 - 1, e1 - 1) (e2 - 1, e3 - 1)))
        else Inl UnboundLocalError
      else
        (case subscripts extent of Inl err \<Rightarrow> Inl err
         | Inr (e0, e1, e2, e3) \<Rightarrow> sel_values pcf var (e0, e1) (e2, e3)))"

section \<open>create_dataset\<close>

text \<open>
  The loop over \<open>T_VARS + U_VARS + V_VARS + F_VARS\<close>: the dictionary \<open>data_vars\<close> is an
  association list in insertion order, and the first selection that raises ends the loop
  with its exception.
\<close>

fun collect ::
  "'a dataset \<Rightarrow> int list \<Rightarrow> bool \<Rightarrow> string list \<Rightarrow> (string \<times> 'a ndarray) list
     \<Rightarrow> error + (string \<times> 'a ndarray) list" where
  "collect pcf extent pac_patch [] data_vars = Inr data_vars"
| "collect pcf extent pac_patch (var # vars) data_vars =
     (case grid_selector pcf var extent pac_patch of
        Inl err \<Rightarrow> Inl err
      | Inr grid_array \<Rightarrow>
          collect pcf extent pac_patch vars (AList.update var grid_array data_vars))"

text \<open>
  \<open>xr.Dataset(data_vars)\<close> where every entry is labelled \<open>(["y", "x"], array)\<close>: the
  constructor raises \<open>ValueError\<close> (conflicting sizes for a dimension) unless all the
  arrays have one shape. The library's message is abbreviated.
\<close>

definition xr_Dataset ::
  "(string \<times> 'a ndarray) list \<Rightarrow> error + (string \<times> 'a ndarray) list" where
  "xr_Dataset data_vars =
     (case data_vars of
        [] \<Rightarrow> Inr []
      | (k, a) # rest \<Rightarrow>
          if list_all (\<lambda>p. shape (snd p) = shape a) rest then Inr data_vars
          else Inl (ValueError ''conflicting sizes for dimension''))"

definition create_dataset ::
  "'a dataset \<Rightarrow> int list \<Rightarrow> bool \<Rightarrow> error + (string \<times> 'a ndarray) list" where
  "create_dataset pcf extent pac_patch =
     (case collect pcf extent pac_patch (T_VARS @ U_VARS @ V_VARS @ F_VARS) [] of
        Inl err \<Rightarrow> Inl err
      | Inr data_vars \<Rightarrow> xr_Dataset data_vars)"

section \<open>main\<close>

text \<open>
  \<open>x_middle = int(pcf['x'].size / 2)\<close>: the quotient of a size by two is exact as a
  float, and \<open>int\<close> truncates it, which for a size is the floor.
\<close>

definition x_middle :: "'a dataset \<Rightarrow> int" where
  "x_middle pcf = int (x_size pcf) div 2"

definition atl_first_xind :: "'a dataset \<Rightarrow> int" where
  "atl_first_xind pcf =
     snd PACIFIC_X_INDICES + (x_middle pcf - snd PACIFIC_X_INDICES) * 2 + 1"

definition atl_last_xind :: "'a dataset \<Rightarrow> int" where
  "atl_last_xind pcf = int (x_size pcf) - fst PACIFIC_X_INDICES + 1"

definition atl_extent :: "'a dataset \<Rightarrow> int list" where
  "atl_extent pcf =
     [fst ATLANTIC_Y_INDICES, snd ATLANTIC_Y_INDICES, atl_first_xind pcf, atl_last_xind pcf]"

definition pac_extent :: "int list" where
  "pac_extent =
     [fst PACIFIC_Y_INDICES, snd PACIFIC_Y_INDICES, fst PACIFIC_X_INDICES, snd PACIFIC_X_INDICES]"

text \<open>
  \<open>xr.concat([atl_dataset, pac_dataset], dim='y')\<close>: both datasets must hold the same
  variables, with equal sizes along \<open>x\<close>; each variable of the result has the rows of the
  first dataset followed by the rows of the second.
\<close>

fun concat_vars ::
  "(string \<times> 'a ndarray) list \<Rightarrow> (string \<times> 'a ndarray) list
     \<Rightarrow> error + (string \<times> 'a ndarray) list" where
  "concat_vars [] second = Inr []"
| "concat_vars ((k, a) # first) second =
     (case map_of second k of
        None \<Rightarrow> Inl (ValueError ''variables present in some datasets but not others'')
      | Some b \<Rightarrow>
          if ncols a \<noteq> ncols b then Inl (ValueError ''dimension sizes do not match'')
          else (case concat_vars first second of
                  Inl err \<Rightarrow> Inl err
                | Inr rest \<Rightarrow> Inr ((k, \<lparr>ncols = ncols a, rows = rows a @ rows b\<rparr>) # rest)))"

definition xr_concat_y ::
  "(string \<times> 'a ndarray) list \<Rightarrow> (string \<times> 'a ndarray) list
     \<Rightarrow> error + (string \<times> 'a ndarray) list" where
  "xr_concat_y first second =
     (if set (map fst first) \<noteq> set (map fst second)
      then Inl (ValueError ''variables present in some datasets but not others'')
      else concat_vars first second)"

text \<open>
  Lines 77 to 81 of \<open>main\<close> for two given extents: the Atlantic dataset, then the Pacific
  dataset, then their concatenation in that order.
\<close>

definition concat_patches ::
  "'a dataset \<Rightarrow> int list \<Rightarrow> int list \<Rightarrow> error + (string \<times> 'a ndarray) list" where
  "concat_patches pcf atl_ext pac_ext =
     (case create_dataset pcf atl_ext False of
        Inl err \<Rightarrow> Inl err
      | Inr atl_dataset \<Rightarrow>
          (case create_dataset pcf pac_ext True of
             Inl err \<Rightarrow> Inl err
           | Inr pac_dataset \<Rightarrow> xr_concat_y atl_dataset pac_dataset))"

text \<open>
  The dataset that \<open>main\<close> writes, as a function of the parent file it has loaded
  (reading the parent file and writing the result are not modelled).
\<close>

definition whole_dataset :: "'a dataset \<Rightarrow> error + (string \<times> 'a ndarray) list" where
  "whole_dataset pcf = concat_patches pcf (atl_extent pcf) pac_extent"

section \<open>Notions of the claims\<close>

text \<open>
  A positional slice bound lies inside \<open>n\<close> positions when lowering it by one moves the
  position it denotes by one: a bound from \<open>1\<close> to \<open>n\<close>, or a negative bound that counts
  from the end to a position from \<open>1\<close> on.
\<close>

definition inside :: "nat \<Rightarrow> int \<Rightarrow> bool" where
  "inside n e \<longleftrightarrow> (1 \<le> e \<and> e \<le> int n) \<or> (e < 0 \<and> 1 \<le> int n + e)"


section \<open>A small parent grid\<close>

text \<open>
  A 4 by 4 array holding \<open>100 * row + column\<close>, and a parent grid without coordinates
  that stores it under each of the sixteen configured names and under one further name.
\<close>

definition pattern4 :: "int ndarray" where
  "pattern4 = \<lparr>ncols = 4, rows = [[0, 1, 2, 3], [100, 101, 102, 103],
                                   [200, 201, 202, 203], [300, 301, 302, 303]]\<rparr>"

definition grid4 :: "int dataset" where
  "grid4 = \<lparr>variables =
              map_of (map (\<lambda>v. (v, pattern4))
                        (T_VARS @ U_VARS @ V_VARS @ F_VARS @ [''tmask''])),
            y_index = None, x_index = None, x_size = 4\<rparr>"

text \<open>The same grid with the coordinate labels \<open>0, 1, 2, 3\<close> on both dimensions.\<close>

definition grid4_labelled :: "int dataset" where
  "grid4_labelled = grid4\<lparr>y_index := Some [0, 1, 2, 3], x_index := Some [0, 1, 2, 3]\<rparr>"

text \<open>The small grid without the variable \<open>glamu\<close>.\<close>

definition grid4_gap :: "int dataset" where
  "grid4_gap = grid4\<lparr>variables := (variables grid4)(''glamu'' := None)\<rparr>"

text \<open>
  The Pacific patch of the small grid for the extent \<open>[1, 3, 1, 3]\<close>, and the
  concatenation of its Atlantic patch for \<open>[0, 2, 1, 3]\<close> with that Pacific patch.
\<close>

definition pacific_patch4 :: "(string \<times> int ndarray) list" where
  "pacific_patch4 =
     map (\<lambda>v. (v, \<lparr>ncols = 2, rows = [[202, 201], [102, 101]]\<rparr>)) T_VARS
     @ map (\<lambda>v. (v, \<lparr>ncols = 2, rows = [[201, 200], [101, 100]]\<rparr>)) U_VARS
     @ map (\<lambda>v. (v, \<lparr>ncols = 2, rows = [[102, 101], [2, 1]]\<rparr>)) V_VARS
     @ map (\<lambda>v. (v, \<lparr>ncols = 2, rows = [[101, 100], [1, 0]]\<rparr>)) F_VARS"

definition whole4 :: "(string \<times> int ndarray) list" where
  "whole4 =
     map (\<lambda>v. (v, \<lparr>ncols = 2, rows = [[1, 2], [101, 102], [202, 201], [102, 101]]\<rparr>)) T_VARS
     @ map (\<lambda>v. (v, \<lparr>ncols = 2, rows = [[1, 2], [101, 102], [201, 200], [101, 100]]\<rparr>)) U_VARS
     @ map (\<lambda>v. (v, \<lparr>ncols = 2, rows = [[1, 2], [101, 102], [102, 101], [2, 1]]\<rparr>)) V_VARS
     @ map (\<lambda>v. (v, \<lparr>ncols = 2, rows = [[1, 2], [101, 102], [101, 100], [1, 0]]\<rparr>)) F_VARS"

section \<open>Properties of the library operations\<close>

lemma shape_np_flip: "shape (np_flip a) = shape a"
  by (simp add: shape_def np_flip_def)


lemma subscripts_four [simp]:
  "subscripts [e0, e1, e2, e3] = Inr (e0, e1, e2, e3)"
  by (simp add: subscripts_def)

section \<open>Properties of grid_selector\<close>

lemma grid_selector_field:
  assumes "variables pcf var = Some a"
  shows "grid_selector pcf var extent pac_patch =
     (if pac_patch then
        if var \<in> set T_VARS then
          (case subscripts extent of Inl err \<Rightarrow> Inl err
           | Inr (e0, e1, e2, e3) \<Rightarrow> Inr (np_flip (sel pcf a (e0, e1) (e2, e3))))
        else if var \<in> set U_VARS then
          (case subscripts extent of Inl err \<Rightarrow> Inl err
           | Inr (e0, e1, e2, e3) \<Rightarrow> Inr (np_flip (sel pcf a (e0, e1) (e2 - 1, e3 - 1))))
        else if var \<in> set V_VARS then
          (case subscripts extent of Inl err \<Rightarrow> Inl err
           | Inr (e0, e1, e2, e3) \<Rightarrow> Inr (np_flip (sel pcf a (e0 - 1, e1 - 1) (e2, e3))))
        else if var \<in> set F_VARS then
          (case subscripts extent of Inl err \<Rightarrow> Inl err
           | Inr (e0, e1, e2, e3) \<Rightarrow>
               Inr (np_flip (sel pcf a (e0 - 1, e1 - 1) (e2 - 1, e3 - 1))))
        else Inl UnboundLocalError
      else
        (case subscripts extent of Inl err \<Rightarrow> Inl err
         | Inr (e0, e1, e2, e3) \<Rightarrow> Inr (sel pcf a (e0, e1) (e2, e3))))"
  using assms
  by (simp add: grid_selector_def contains_def sel_values_def flipped_def
      split: sum.splits prod.splits)

lemma families_disjoint:
  "var \<in> set U_VARS \<Longrightarrow> var \<notin> set T_VARS"
  "var \<in> set V_VARS \<Longrightarrow> var \<notin> set T_VARS \<and> var \<notin> set U_VARS"
  "var \<in> set F_VARS \<Longrightarrow> var \<notin> set T_VARS \<and> var \<notin> set U_VARS \<and> var \<notin> set V_VARS"
  by (auto simp: T_VARS_def U_VARS_def V_VARS_def F_VARS_def)



lemma grid_selector_family:
  assumes "variables pcf var = Some a" and "var \<in> set (T_VARS @ U_VARS @ V_VARS @ F_VARS)"
  shows "\<exists>dy\<in>{0, 1}. \<exists>dx\<in>{0, 1}. grid_selector pcf var [e0, e1, e2, e3] True
            = Inr (np_flip (sel pcf a (e0 - dy, e1 - dy) (e2 - dx, e3 - dx)))"
  using assms by (auto simp: grid_selector_field)

lemma grid_selector_absent:
  "\<not> contains pcf var \<Longrightarrow>
     grid_selector pcf var extent pac_patch
       = Inl (ValueError (''Variable '' @ var @ '' not found in the dataset.''))"
  by (simp add: grid_selector_def)

lemma flipped_no_ValueError:
  "r \<noteq> Inl (ValueError msg) \<Longrightarrow> flipped r \<noteq> Inl (ValueError msg)"
  by (cases r) (simp_all add: flipped_def)

lemma sel_values_no_ValueError: "sel_values pcf var ys xs \<noteq> Inl (ValueError msg)"
  by (simp add: sel_values_def split: option.splits)

lemma grid_selector_member:
  assumes "contains pcf var"
  shows "grid_selector pcf var extent pac_patch \<noteq> Inl (ValueError msg)"
proof (cases "length extent < 4")
  case True
  then have "subscripts extent = Inl IndexError" by (simp add: subscripts_def)
  with assms show ?thesis by (simp add: grid_selector_def)
next
  case False
  then obtain e0 e1 e2 e3 where "subscripts extent = Inr (e0, e1, e2, e3)"
    by (simp add: subscripts_def)
  with assms show ?thesis
    by (simp add: grid_selector_def flipped_no_ValueError sel_values_no_ValueError)
qed

subsection \<open>Evaluation on the small grid\<close>

lemma map_of_const:
  "map_of (map (\<lambda>v. (v, c)) vs) k = (if k \<in> set vs then Some c else None)"
  by (induction vs) auto

lemma grid4_lookup:
  "variables grid4 var
     = (if var \<in> set (T_VARS @ U_VARS @ V_VARS @ F_VARS @ [''tmask'']) then Some pattern4 else None)"
  "variables grid4_labelled var = variables grid4 var"
  by (simp_all add: grid4_def grid4_labelled_def map_of_const
        del: set_append map_append map_of_append)

lemma names_in_lists:
  "''glamt'' \<in> set T_VARS" "''glamu'' \<in> set U_VARS"
  "''glamv'' \<in> set V_VARS" "''glamf'' \<in> set F_VARS"
  "''tmask'' \<notin> set (T_VARS @ U_VARS @ V_VARS @ F_VARS)"
  "''sst'' \<notin> set (T_VARS @ U_VARS @ V_VARS @ F_VARS @ [''tmask''])"
  by (simp_all add: T_VARS_def U_VARS_def V_VARS_def F_VARS_def)

lemma grid4_indexes:
  "y_index grid4 = None" "x_index grid4 = None"
  "y_index grid4_labelled = Some [0, 1, 2, 3]" "x_index grid4_labelled = Some [0, 1, 2, 3]"
  by (simp_all add: grid4_def grid4_labelled_def)

lemmas evaluate_sel =
  sel_def grid4_indexes pattern4_def indexer_def py_slice_def slice_bound_def label_slice_def
  np_flip_def upt_conv_Cons

subsection \<open>The claims about grid_selector\<close>

text \<open>
  Claim C1. For a variable of the parent file and an extent \<open>[e0, e1, e2, e3]\<close>, the Pacific
  branch slices the variable with the bounds of its list: \<open>T_VARS\<close> rows \<open>e0:e1\<close> and
  columns \<open>e2:e3\<close>; \<open>U_VARS\<close> rows \<open>e0:e1\<close> and columns \<open>e2-1:e3-1\<close>; \<open>V_VARS\<close> rows
  \<open>e0-1:e1-1\<close> and columns \<open>e2:e3\<close>; \<open>F_VARS\<close> rows \<open>e0-1:e1-1\<close> and columns
  \<open>e2-1:e3-1\<close>. For a \<open>U_VARS\<close> variable and the extent \<open>[10, 20, 30, 40]\<close> the row slice
  is \<open>10:20\<close> and the column slice is \<open>29:39\<close>.
\<close>

theorem grid_selector_pacific_windows:
  assumes "variables pcf var = Some a"
  shows "(var \<in> set T_VARS \<longrightarrow>
            grid_selector pcf var [e0, e1, e2, e3] True
              = Inr (np_flip (sel pcf a (e0, e1) (e2, e3))))
       \<and> (var \<in> set U_VARS \<longrightarrow>
            grid_selector pcf var [e0, e1, e2, e3] True
              = Inr (np_flip (sel pcf a (e0, e1) (e2 - 1, e3 - 1))))
       \<and> (var \<in> set V_VARS \<longrightarrow>
            grid_selector pcf var [e0, e1, e2, e3] True
              = Inr (np_flip (sel pcf a (e0 - 1, e1 - 1) (e2, e3))))
       \<and> (var \<in> set F_VARS \<longrightarrow>
            grid_selector pcf var [e0, e1, e2, e3] True
              = Inr (np_flip (sel pcf a (e0 - 1, e1 - 1) (e2 - 1, e3 - 1))))
       \<and> (var \<in> set U_VARS \<longrightarrow>
            grid_selector pcf var [10, 20, 30, 40] True
              = Inr (np_flip (sel pcf a (10, 20) (29, 39))))"
  using assms by (simp add: grid_selector_field families_disjoint)

text \<open>The windows of C1 on the small grid, one variable of each list.\<close>

theorem grid_selector_pacific_windows_witness:
  "grid_selector grid4 ''glamt'' [1, 3, 1, 3] True
     = Inr \<lparr>ncols = 2, rows = [[202, 201], [102, 101]]\<rparr>
   \<and> grid_selector grid4 ''glamu'' [1, 3, 1, 3] True
     = Inr \<lparr>ncols = 2, rows = [[201, 200], [101, 100]]\<rparr>
   \<and> grid_selector grid4 ''glamv'' [1, 3, 1, 3] True
     = Inr \<lparr>ncols = 2, rows = [[102, 101], [2, 1]]\<rparr>
   \<and> grid_selector grid4 ''glamf'' [1, 3, 1, 3] True
     = Inr \<lparr>ncols = 2, rows = [[101, 100], [1, 0]]\<rparr>
   \<and> grid_selector grid4 ''glamu'' [10, 20, 30, 40] True
     = Inr (np_flip (sel grid4 pattern4 (10, 20) (29, 39)))"
proof -
  have present: "variables grid4 v = Some pattern4"
    if "v \<in> set (T_VARS @ U_VARS @ V_VARS @ F_VARS)" for v
    using that by (simp add: grid4_lookup)
  have t: "variables grid4 ''glamt'' = Some pattern4"
    and u: "variables grid4 ''glamu'' = Some pattern4"
    and v: "variables grid4 ''glamv'' = Some pattern4"
    and f: "variables grid4 ''glamf'' = Some pattern4"
    using names_in_lists by (simp_all add: present)
  show ?thesis
    using grid_selector_pacific_windows [OF t, of 1 3 1 3]
      grid_selector_pacific_windows [OF u, of 1 3 1 3]
      grid_selector_pacific_windows [OF v, of 1 3 1 3]
      grid_selector_pacific_windows [OF f, of 1 3 1 3]
    by (simp add: names_in_lists evaluate_sel)
qed







text \<open>
  Claim C5. \<open>grid_selector\<close> raises the \<open>ValueError\<close> whose message holds the requested
  name when the name is no member of the parent file, and raises no \<open>ValueError\<close> at all
  when the name is a member, for every extent and either patch.
\<close>

theorem grid_selector_unknown_field:
  "(\<not> contains pcf var \<longrightarrow>
      grid_selector pcf var extent pac_patch
        = Inl (ValueError (''Variable '' @ var @ '' not found in the dataset.'')))
   \<and> (contains pcf var \<longrightarrow>
        (\<forall>msg. grid_selector pcf var extent pac_patch \<noteq> Inl (ValueError msg)))"
  using grid_selector_absent grid_selector_member by blast

text \<open>
  C5 at two names that the small grid lacks, at a variable it has, and at the coordinate
  \<open>x\<close> of the labelled grid.
\<close>

theorem grid_selector_unknown_field_witness:
  "grid_selector grid4 ''sst'' [1, 3, 1, 3] True
     = Inl (ValueError ''Variable sst not found in the dataset.'')
   \<and> grid_selector grid4 ''x'' [1, 3, 1, 3] False
     = Inl (ValueError ''Variable x not found in the dataset.'')
   \<and> (\<forall>msg. grid_selector grid4 ''glamf'' [1, 3, 1, 3] True \<noteq> Inl (ValueError msg))
   \<and> (\<forall>msg. grid_selector grid4_labelled ''x'' [1, 3, 1, 3] True \<noteq> Inl (ValueError msg))
   \<and> grid_selector grid4_labelled ''x'' [1, 3, 1, 3] True = Inl UnboundLocalError
   \<and> grid_selector grid4_labelled ''x'' [1, 3, 1, 3] False = Inl KeyError"
proof -
  have absent: "\<not> contains grid4 ''sst''" "\<not> contains grid4 ''x''"
    by code_simp+
  have member: "contains grid4 ''glamf''" "contains grid4_labelled ''x''"
    by code_simp+
  have coordinate: "grid_selector grid4_labelled ''x'' [1, 3, 1, 3] True = Inl UnboundLocalError"
    "grid_selector grid4_labelled ''x'' [1, 3, 1, 3] False = Inl KeyError"
    by code_simp+
  from grid_selector_unknown_field [of grid4 "''sst''" "[1, 3, 1, 3]" True, THEN conjunct1,
      THEN mp, OF absent(1)]
    grid_selector_unknown_field [of grid4 "''x''" "[1, 3, 1, 3]" False, THEN conjunct1,
      THEN mp, OF absent(2)]
    grid_selector_unknown_field [of grid4 "''glamf''" "[1, 3, 1, 3]" True, THEN conjunct2,
      THEN mp, OF member(1)]
    grid_selector_unknown_field [of grid4_labelled "''x''" "[1, 3, 1, 3]" True, THEN conjunct2,
      THEN mp, OF member(2)]
    coordinate
  show ?thesis by simp
qed



section \<open>Properties of create_dataset\<close>

text \<open>The loop: its keys, its values, and the first selection that raises.\<close>

lemma all_vars_distinct: "distinct (T_VARS @ U_VARS @ V_VARS @ F_VARS)"
  by (simp add: T_VARS_def U_VARS_def V_VARS_def F_VARS_def)

lemma all_vars_length: "length (T_VARS @ U_VARS @ V_VARS @ F_VARS) = 18"
  by (simp add: T_VARS_def U_VARS_def V_VARS_def F_VARS_def)

lemma collect_keys:
  "collect pcf extent pac_patch vars acc = Inr dv \<Longrightarrow> distinct (map fst acc @ vars)
     \<Longrightarrow> map fst dv = map fst acc @ vars"
proof (induction vars arbitrary: acc)
  case Nil
  then show ?case by simp
next
  case (Cons var vars)
  from Cons.prems(1) obtain g where g: "grid_selector pcf var extent pac_patch = Inr g"
    and c: "collect pcf extent pac_patch vars (AList.update var g acc) = Inr dv"
    by (auto split: sum.splits)
  have k: "map fst (AList.update var g acc) = map fst acc @ [var]"
    using Cons.prems(2) by (simp add: update_keys)
  have "map fst dv = map fst (AList.update var g acc) @ vars"
    using Cons.prems(2) by (intro Cons.IH [OF c]) (simp add: k)
  then show ?case by (simp add: k)
qed

lemma collect_values:
  "collect pcf extent pac_patch vars acc = Inr dv \<Longrightarrow>
     map_of dv v = (if v \<in> set vars
                    then (case grid_selector pcf v extent pac_patch of
                            Inl err \<Rightarrow> None | Inr g \<Rightarrow> Some g)
                    else map_of acc v)"
proof (induction vars arbitrary: acc)
  case Nil
  then show ?case by simp
next
  case (Cons var vars)
  from Cons.prems obtain g where g: "grid_selector pcf var extent pac_patch = Inr g"
    and c: "collect pcf extent pac_patch vars (AList.update var g acc) = Inr dv"
    by (auto split: sum.splits)
  show ?case
    using Cons.IH [OF c] g by (simp add: update_conv')
qed

lemma collect_succeeds_each:
  "collect pcf extent pac_patch vars acc = Inr dv \<Longrightarrow> v \<in> set vars
     \<Longrightarrow> \<exists>g. grid_selector pcf v extent pac_patch = Inr g"
  by (induction vars arbitrary: acc) (auto split: sum.splits)

lemma collect_total:
  "(\<forall>v\<in>set vars. \<exists>g. grid_selector pcf v extent pac_patch = Inr g)
     \<Longrightarrow> \<exists>dv. collect pcf extent pac_patch vars acc = Inr dv"
  by (induction vars arbitrary: acc) auto

lemma collect_first_error:
  "v \<in> set vars \<Longrightarrow> grid_selector pcf v extent pac_patch = Inl err0 \<Longrightarrow>
     \<exists>pre u post err. vars = pre @ u # post
        \<and> (\<forall>w\<in>set pre. \<exists>g. grid_selector pcf w extent pac_patch = Inr g)
        \<and> grid_selector pcf u extent pac_patch = Inl err
        \<and> collect pcf extent pac_patch vars acc = Inl err"
proof (induction vars arbitrary: acc)
  case Nil
  then show ?case by simp
next
  case (Cons var vars)
  show ?case
  proof (cases "grid_selector pcf var extent pac_patch")
    case (Inl err)
    then have "var # vars = [] @ var # vars
        \<and> (\<forall>w\<in>set []. \<exists>g. grid_selector pcf w extent pac_patch = Inr g)
        \<and> grid_selector pcf var extent pac_patch = Inl err
        \<and> collect pcf extent pac_patch (var # vars) acc = Inl err"
      by simp
    then show ?thesis
      by (intro exI [of _ "[]"] exI [of _ var] exI [of _ vars] exI [of _ err])
  next
    case (Inr g)
    with Cons.prems have "v \<in> set vars" by auto
    from Cons.IH [OF this Cons.prems(2), of "AList.update var g acc"]
    obtain pre u post err where p: "vars = pre @ u # post"
      "\<forall>w\<in>set pre. \<exists>g. grid_selector pcf w extent pac_patch = Inr g"
      "grid_selector pcf u extent pac_patch = Inl err"
      "collect pcf extent pac_patch vars (AList.update var g acc) = Inl err"
      by (elim exE conjE)
    have "var # vars = (var # pre) @ u # post
        \<and> (\<forall>w\<in>set (var # pre). \<exists>g. grid_selector pcf w extent pac_patch = Inr g)
        \<and> grid_selector pcf u extent pac_patch = Inl err
        \<and> collect pcf extent pac_patch (var # vars) acc = Inl err"
      using p Inr by simp
    then show ?thesis
      by (intro exI [of _ "var # pre"] exI [of _ u] exI [of _ post] exI [of _ err])
  qed
qed

text \<open>The Dataset constructor accepts exactly the dictionaries whose arrays share a shape.\<close>

lemma xr_Dataset_Inr:
  assumes "xr_Dataset dv = Inr ds"
  shows "ds = dv" and "\<forall>p\<in>set dv. \<forall>q\<in>set dv. shape (snd p) = shape (snd q)"
proof -
  show "ds = dv"
    using assms by (cases dv) (auto simp: xr_Dataset_def split: if_splits)
  show "\<forall>p\<in>set dv. \<forall>q\<in>set dv. shape (snd p) = shape (snd q)"
  proof (cases dv)
    case Nil
    then show ?thesis by simp
  next
    case (Cons ka rest)
    then have "\<forall>p\<in>set rest. shape (snd p) = shape (snd ka)"
      using assms by (cases ka) (simp add: xr_Dataset_def list_all_iff split: if_splits)
    then have "\<forall>p\<in>set dv. shape (snd p) = shape (snd ka)"
      using Cons by simp
    then show ?thesis by simp
  qed
qed

lemma xr_Dataset_same_shape:
  assumes "\<forall>p\<in>set dv. \<forall>q\<in>set dv. shape (snd p) = shape (snd q)"
  shows "xr_Dataset dv = Inr dv"
proof (cases dv)
  case Nil
  then show ?thesis by (simp add: xr_Dataset_def)
next
  case (Cons ka rest)
  obtain k a where ka: "ka = (k, a)" by (cases ka)
  have "shape (snd p) = shape a" if "p \<in> set rest" for p
  proof -
    have "p \<in> set dv" and "(k, a) \<in> set dv" using that Cons ka by simp_all
    with assms have "shape (snd p) = shape (snd (k, a))" by blast
    then show ?thesis by simp
  qed
  then have "list_all (\<lambda>p. shape (snd p) = shape a) rest"
    by (simp add: list_all_iff)
  then show ?thesis
    unfolding xr_Dataset_def Cons ka by simp
qed

lemma create_dataset_Inr:
  assumes "create_dataset pcf extent pac_patch = Inr ds"
  shows "collect pcf extent pac_patch (T_VARS @ U_VARS @ V_VARS @ F_VARS) [] = Inr ds"
    and "\<forall>p\<in>set ds. \<forall>q\<in>set ds. shape (snd p) = shape (snd q)"
proof -
  let ?c = "collect pcf extent pac_patch (T_VARS @ U_VARS @ V_VARS @ F_VARS) []"
  have d: "create_dataset pcf extent pac_patch
             = (case ?c of Inl err \<Rightarrow> Inl err | Inr data_vars \<Rightarrow> xr_Dataset data_vars)"
    by (simp only: create_dataset_def)
  obtain dv where c: "?c = Inr dv" and x: "xr_Dataset dv = Inr ds"
  proof (cases ?c)
    case (Inl err)
    with d assms show ?thesis by (simp only: sum.case sum.distinct)
  next
    case (Inr dv)
    with d assms have "xr_Dataset dv = Inr ds" by (simp only: sum.case)
    with Inr that show ?thesis by blast
  qed
  from xr_Dataset_Inr(1) [OF x] c show "?c = Inr ds" by (simp only:)
  from xr_Dataset_Inr(1) [OF x] xr_Dataset_Inr(2) [OF x]
  show "\<forall>p\<in>set ds. \<forall>q\<in>set ds. shape (snd p) = shape (snd q)" by (simp only:)
qed

lemma shape_sel:
  "shape a = shape b \<Longrightarrow> shape (sel pcf a ys xs) = shape (sel pcf b ys xs)"
  by (simp add: shape_def sel_def Let_def)

lemma shape_sel_indexer:
  "shape (sel pcf a ys xs)
     = (length (indexer (y_index pcf) (length (rows a)) ys),
        length (indexer (x_index pcf) (ncols a) xs))"
  by (simp add: shape_def sel_def Let_def)

lemma slice_bound_inside:
  assumes "inside n e"
  shows "slice_bound n (e - 1) = slice_bound n e - 1" and "1 \<le> slice_bound n e"
  using assms by (auto simp: inside_def slice_bound_def)

lemma length_py_slice: "length (py_slice n lo hi) = slice_bound n hi - slice_bound n lo"
  by (simp add: py_slice_def)

lemma length_py_slice_lowered:
  assumes "inside n lo" and "inside n hi"
  shows "length (py_slice n (lo - 1) (hi - 1)) = length (py_slice n lo hi)"
  using slice_bound_inside [OF assms(1)] slice_bound_inside [OF assms(2)]
  by (simp add: length_py_slice)

lemma collect_one_shape:
  assumes "\<forall>v\<in>set vars. \<exists>g. grid_selector pcf v extent pac_patch = Inr g \<and> shape g = S"
    and "distinct vars"
  shows "\<exists>dv. collect pcf extent pac_patch vars [] = Inr dv \<and> (\<forall>p\<in>set dv. shape (snd p) = S)"
proof -
  from assms(1) have "\<forall>v\<in>set vars. \<exists>g. grid_selector pcf v extent pac_patch = Inr g"
    by blast
  from collect_total [OF this, of "[]"]
  obtain dv where dv: "collect pcf extent pac_patch vars [] = Inr dv" by blast
  have keys: "map fst dv = vars"
    using collect_keys [OF dv] assms(2) by simp
  have "shape (snd p) = S" if "p \<in> set dv" for p
  proof -
    have v: "fst p \<in> set vars" using that keys by (metis image_eqI list.set_map)
    from assms(1) v obtain g where g: "grid_selector pcf (fst p) extent pac_patch = Inr g"
      "shape g = S" by blast
    have "map_of dv (fst p) = Some g"
      using collect_values [OF dv, of "fst p"] v g(1) by simp
    moreover have "map_of dv (fst p) = Some (snd p)"
      using that keys assms(2) by (simp add: map_of_eq_Some_iff [of dv])
    ultimately show ?thesis using g(2) by simp
  qed
  with dv show ?thesis by blast
qed

lemma create_dataset_one_shape:
  assumes "\<forall>v\<in>set (T_VARS @ U_VARS @ V_VARS @ F_VARS).
             \<exists>g. grid_selector pcf v extent pac_patch = Inr g \<and> shape g = S"
  shows "\<exists>ds. create_dataset pcf extent pac_patch = Inr ds \<and> (\<forall>p\<in>set ds. shape (snd p) = S)"
proof -
  from collect_one_shape [OF assms all_vars_distinct]
  obtain dv
    where c: "collect pcf extent pac_patch (T_VARS @ U_VARS @ V_VARS @ F_VARS) [] = Inr dv"
      and s: "\<forall>p\<in>set dv. shape (snd p) = S"
    by (elim exE conjE)
  from s have "\<forall>p\<in>set dv. \<forall>q\<in>set dv. shape (snd p) = shape (snd q)" by simp
  from xr_Dataset_same_shape [OF this]
  have "create_dataset pcf extent pac_patch = Inr dv"
    by (simp only: create_dataset_def c sum.case)
  with s show ?thesis by (intro exI [of _ dv] conjI)
qed

lemma atlantic_selection:
  assumes "variables pcf v = Some a" and "shape a = (n, m)"
  shows "\<exists>g. grid_selector pcf v [e0, e1, e2, e3] False = Inr g
           \<and> shape g = (length (indexer (y_index pcf) n (e0, e1)),
                        length (indexer (x_index pcf) m (e2, e3)))"
  using assms by (simp add: grid_selector_field shape_sel_indexer) (simp add: shape_def)

lemma pacific_selection:
  assumes "variables pcf v = Some a" and "shape a = (n, m)"
    and "v \<in> set (T_VARS @ U_VARS @ V_VARS @ F_VARS)"
    and "y_index pcf = None" and "x_index pcf = None"
    and "inside n e0" and "inside n e1" and "inside m e2" and "inside m e3"
  shows "\<exists>g. grid_selector pcf v [e0, e1, e2, e3] True = Inr g
           \<and> shape g = (slice_bound n e1 - slice_bound n e0, slice_bound m e3 - slice_bound m e2)"
proof -
  have nm: "length (rows a) = n" "ncols a = m" using assms(2) by (simp_all add: shape_def)
  have sh: "shape (np_flip (sel pcf a (y0, y1) (x0, x1)))
              = (length (py_slice n y0 y1), length (py_slice m x0 x1))" for y0 y1 x0 x1
    by (simp add: shape_np_flip shape_sel_indexer indexer_def assms(4,5) nm)
  have rows_lowered: "slice_bound n (e1 - 1) - slice_bound n (e0 - 1)
                        = slice_bound n e1 - slice_bound n e0"
    using length_py_slice_lowered [OF assms(6,7)] by (simp add: length_py_slice)
  have cols_lowered: "slice_bound m (e3 - 1) - slice_bound m (e2 - 1)
                        = slice_bound m e3 - slice_bound m e2"
    using length_py_slice_lowered [OF assms(8,9)] by (simp add: length_py_slice)
  from assms(3) consider "v \<in> set T_VARS" | "v \<in> set U_VARS" | "v \<in> set V_VARS"
    | "v \<in> set F_VARS" by auto
  then show ?thesis
  proof cases
    case 1
    then show ?thesis
      using assms(1) by (simp add: grid_selector_field sh length_py_slice)
  next
    case 2
    then show ?thesis
      using assms(1) families_disjoint(1) [OF 2]
      by (simp add: grid_selector_field sh length_py_slice cols_lowered)
  next
    case 3
    then show ?thesis
      using assms(1) families_disjoint(2) [OF 3]
      by (simp add: grid_selector_field sh length_py_slice rows_lowered)
  next
    case 4
    then show ?thesis
      using assms(1) families_disjoint(3) [OF 4]
      by (simp add: grid_selector_field sh length_py_slice rows_lowered cols_lowered)
  qed
qed

lemma slice_bound_inside_int:
  "inside n e \<Longrightarrow> int (slice_bound n e) = (if e < 0 then int n + e else e)"
  by (auto simp: inside_def slice_bound_def)

lemma slice_width_inside:
  assumes "inside n lo" and "inside n hi"
  shows "slice_bound n hi - slice_bound n lo
           = nat ((if hi < 0 then int n + hi else hi) - (if lo < 0 then int n + lo else lo))"
proof -
  have "slice_bound n hi - slice_bound n lo = nat (int (slice_bound n hi) - int (slice_bound n lo))"
    by simp
  then show ?thesis
    by (simp only: slice_bound_inside_int [OF assms(1)] slice_bound_inside_int [OF assms(2)])
qed

text \<open>
  Claim C6. If the selection of some configured variable raises, \<open>create_dataset\<close> raises
  the exception of the first configured variable whose selection raises and returns no
  dataset; and \<open>create_dataset\<close> returns a dataset only when the selection of every
  configured variable succeeds.
\<close>

theorem create_dataset_propagates:
  "(var \<in> set (T_VARS @ U_VARS @ V_VARS @ F_VARS)
      \<and> grid_selector pcf var extent pac_patch = Inl err0 \<longrightarrow>
      (\<exists>pre u post err. T_VARS @ U_VARS @ V_VARS @ F_VARS = pre @ u # post
         \<and> (\<forall>w\<in>set pre. \<exists>g. grid_selector pcf w extent pac_patch = Inr g)
         \<and> grid_selector pcf u extent pac_patch = Inl err
         \<and> create_dataset pcf extent pac_patch = Inl err))
   \<and> (create_dataset pcf extent pac_patch = Inr ds \<longrightarrow>
        (\<forall>v\<in>set (T_VARS @ U_VARS @ V_VARS @ F_VARS).
           \<exists>g. grid_selector pcf v extent pac_patch = Inr g))"
proof (intro conjI impI)
  assume a: "var \<in> set (T_VARS @ U_VARS @ V_VARS @ F_VARS)
      \<and> grid_selector pcf var extent pac_patch = Inl err0"
  from collect_first_error [OF conjunct1 [OF a] conjunct2 [OF a], of "[]"]
  obtain pre u post err where p: "T_VARS @ U_VARS @ V_VARS @ F_VARS = pre @ u # post"
      "\<forall>w\<in>set pre. \<exists>g. grid_selector pcf w extent pac_patch = Inr g"
      "grid_selector pcf u extent pac_patch = Inl err"
      "collect pcf extent pac_patch (T_VARS @ U_VARS @ V_VARS @ F_VARS) [] = Inl err"
    by (elim exE conjE)
  from p(4) have "create_dataset pcf extent pac_patch = Inl err"
    by (simp only: create_dataset_def sum.case)
  with p(1-3) have "T_VARS @ U_VARS @ V_VARS @ F_VARS = pre @ u # post
         \<and> (\<forall>w\<in>set pre. \<exists>g. grid_selector pcf w extent pac_patch = Inr g)
         \<and> grid_selector pcf u extent pac_patch = Inl err
         \<and> create_dataset pcf extent pac_patch = Inl err"
    by (intro conjI)
  then show "\<exists>pre u post err. T_VARS @ U_VARS @ V_VARS @ F_VARS = pre @ u # post
         \<and> (\<forall>w\<in>set pre. \<exists>g. grid_selector pcf w extent pac_patch = Inr g)
         \<and> grid_selector pcf u extent pac_patch = Inl err
         \<and> create_dataset pcf extent pac_patch = Inl err"
    by (intro exI [of _ pre] exI [of _ u] exI [of _ post] exI [of _ err])
next
  assume "create_dataset pcf extent pac_patch = Inr ds"
  from create_dataset_Inr(1) [OF this]
  have c: "collect pcf extent pac_patch (T_VARS @ U_VARS @ V_VARS @ F_VARS) [] = Inr ds" .
  show "\<forall>v\<in>set (T_VARS @ U_VARS @ V_VARS @ F_VARS).
           \<exists>g. grid_selector pcf v extent pac_patch = Inr g"
    by (intro ballI) (rule collect_succeeds_each [OF c])
qed

text \<open>C6 on the small grid without \<open>glamu\<close>, and on the small grid itself.\<close>

theorem create_dataset_propagates_witness:
  "(\<exists>pre u post err. T_VARS @ U_VARS @ V_VARS @ F_VARS = pre @ u # post
       \<and> (\<forall>w\<in>set pre. \<exists>g. grid_selector grid4_gap w [1, 3, 1, 3] True = Inr g)
       \<and> grid_selector grid4_gap u [1, 3, 1, 3] True = Inl err
       \<and> create_dataset grid4_gap [1, 3, 1, 3] True = Inl err)
   \<and> create_dataset grid4_gap [1, 3, 1, 3] True
       = Inl (ValueError ''Variable glamu not found in the dataset.'')
   \<and> list_all (\<lambda>v. \<exists>g. grid_selector grid4 v [1, 3, 1, 3] True = Inr g)
         (T_VARS @ U_VARS @ V_VARS @ F_VARS)"
proof -
  have fails: "''glamu'' \<in> set (T_VARS @ U_VARS @ V_VARS @ F_VARS)
      \<and> grid_selector grid4_gap ''glamu'' [1, 3, 1, 3] True
          = Inl (ValueError ''Variable glamu not found in the dataset.'')"
    by code_simp
  have gap: "create_dataset grid4_gap [1, 3, 1, 3] True
       = Inl (ValueError ''Variable glamu not found in the dataset.'')"
    by code_simp
  have returns: "create_dataset grid4 [1, 3, 1, 3] True
   = Inr (map (\<lambda>v. (v, \<lparr>ncols = 2, rows = [[202, 201], [102, 101]]\<rparr>)) T_VARS
        @ map (\<lambda>v. (v, \<lparr>ncols = 2, rows = [[201, 200], [101, 100]]\<rparr>)) U_VARS
        @ map (\<lambda>v. (v, \<lparr>ncols = 2, rows = [[102, 101], [2, 1]]\<rparr>)) V_VARS
        @ map (\<lambda>v. (v, \<lparr>ncols = 2, rows = [[101, 100], [1, 0]]\<rparr>)) F_VARS)"
    by code_simp
  have each: "list_all (\<lambda>v. \<exists>g. grid_selector grid4 v [1, 3, 1, 3] True = Inr g)
         (T_VARS @ U_VARS @ V_VARS @ F_VARS)"
    unfolding list_all_iff
    by (rule create_dataset_propagates [THEN conjunct2, THEN mp, OF returns])
  from create_dataset_propagates [THEN conjunct1, THEN mp, OF fails] gap each
  show ?thesis by (intro conjI)
qed

text \<open>
  Claim C4, as the code has it. The claim says that \<open>create_dataset\<close> returns, for every
  extent and either patch, on a parent file with all configured variables, a dataset of
  exactly 16 names with one shape. The lists hold 18 names, and in the Pacific branch an
  extent on the border of the grid gives windows of different shapes, which the Dataset
  constructor refuses.
\<close>

theorem create_dataset_names_and_shape_counterexample:
  "set (T_VARS @ U_VARS @ V_VARS @ F_VARS) \<subseteq> dom (variables grid4)
   \<and> map_sum id shape (grid_selector grid4 ''glamt'' [0, 2, 0, 2] True) = Inr (2, 2)
   \<and> map_sum id shape (grid_selector grid4 ''glamu'' [0, 2, 0, 2] True) = Inr (2, 0)
   \<and> create_dataset grid4 [0, 2, 0, 2] True
       = Inl (ValueError ''conflicting sizes for dimension'')
   \<and> map_sum id length (create_dataset grid4 [1, 3, 1, 3] True) = Inr 18"
proof (intro conjI)
  show "set (T_VARS @ U_VARS @ V_VARS @ F_VARS) \<subseteq> dom (variables grid4)"
  proof
    fix v assume "v \<in> set (T_VARS @ U_VARS @ V_VARS @ F_VARS)"
    then have "v \<in> set (T_VARS @ U_VARS @ V_VARS @ F_VARS @ [''tmask''])" by simp
    then have "variables grid4 v = Some pattern4" by (simp only: grid4_lookup if_True)
    then show "v \<in> dom (variables grid4)" by (rule domI)
  qed
  show "map_sum id shape (grid_selector grid4 ''glamt'' [0, 2, 0, 2] True) = Inr (2, 2)"
    by code_simp
  show "map_sum id shape (grid_selector grid4 ''glamu'' [0, 2, 0, 2] True) = Inr (2, 0)"
    by code_simp
  show "create_dataset grid4 [0, 2, 0, 2] True
       = Inl (ValueError ''conflicting sizes for dimension'')"
    by code_simp
  show "map_sum id length (create_dataset grid4 [1, 3, 1, 3] True) = Inr 18"
    by code_simp
qed

text \<open>
  Claim C4, amended. Whenever \<open>create_dataset\<close> returns a dataset, its names are exactly
  the 18 configured names, in the order of the lists, and all its arrays have one shape.
  On a parent file whose configured variables are all present with one shape \<open>(n, m)\<close> it
  does return a dataset: in the Atlantic branch for every four-entry extent, when each
  dimension has no coordinate or increasing labels; in the Pacific branch, on a file
  without coordinates, for every extent whose bounds lie inside the grid, and then every
  array has as many rows as lie between the row bounds and as many columns as lie between
  the column bounds.
\<close>

theorem create_dataset_names_and_shape:
  "(create_dataset pcf extent pac_patch = Inr ds \<longrightarrow>
      map fst ds = T_VARS @ U_VARS @ V_VARS @ F_VARS \<and> length ds = 18
      \<and> distinct (map fst ds)
      \<and> (\<forall>p\<in>set ds. \<forall>q\<in>set ds. shape (snd p) = shape (snd q)))
   \<and> ((\<forall>v\<in>set (T_VARS @ U_VARS @ V_VARS @ F_VARS).
          \<exists>a. variables pcf v = Some a \<and> shape a = (n, m))
        \<and> increasing (y_index pcf) \<and> increasing (x_index pcf) \<longrightarrow>
        (\<exists>ds. create_dataset pcf [e0, e1, e2, e3] False = Inr ds))
   \<and> ((\<forall>v\<in>set (T_VARS @ U_VARS @ V_VARS @ F_VARS).
          \<exists>a. variables pcf v = Some a \<and> shape a = (n, m))
        \<and> y_index pcf = None \<and> x_index pcf = None
        \<and> inside n e0 \<and> inside n e1 \<and> inside m e2 \<and> inside m e3 \<longrightarrow>
        (\<exists>ds. create_dataset pcf [e0, e1, e2, e3] True = Inr ds
           \<and> (\<forall>p\<in>set ds. shape (snd p)
                 = (nat ((if e1 < 0 then int n + e1 else e1) - (if e0 < 0 then int n + e0 else e0)),
                    nat ((if e3 < 0 then int m + e3 else e3)
                         - (if e2 < 0 then int m + e2 else e2))))))"
proof (intro conjI impI)
  assume r: "create_dataset pcf extent pac_patch = Inr ds"
  from collect_keys [OF create_dataset_Inr(1) [OF r]] all_vars_distinct
  show k: "map fst ds = T_VARS @ U_VARS @ V_VARS @ F_VARS"
    by (simp only: list.map append_Nil)
  have "length (map fst ds) = 18" by (simp only: k all_vars_length)
  then show "length ds = 18" by (simp only: length_map)
  show "distinct (map fst ds)" by (simp only: k all_vars_distinct)
  from create_dataset_Inr(2) [OF r]
  show "\<forall>p\<in>set ds. \<forall>q\<in>set ds. shape (snd p) = shape (snd q)" .
next
  assume h: "(\<forall>v\<in>set (T_VARS @ U_VARS @ V_VARS @ F_VARS).
          \<exists>a. variables pcf v = Some a \<and> shape a = (n, m))
        \<and> increasing (y_index pcf) \<and> increasing (x_index pcf)"
  let ?S = "(length (indexer (y_index pcf) n (e0, e1)), length (indexer (x_index pcf) m (e2, e3)))"
  have "\<forall>v\<in>set (T_VARS @ U_VARS @ V_VARS @ F_VARS).
          \<exists>g. grid_selector pcf v [e0, e1, e2, e3] False = Inr g \<and> shape g = ?S"
  proof
    fix v assume "v \<in> set (T_VARS @ U_VARS @ V_VARS @ F_VARS)"
    with h obtain a where "variables pcf v = Some a" "shape a = (n, m)" by blast
    from atlantic_selection [OF this]
    show "\<exists>g. grid_selector pcf v [e0, e1, e2, e3] False = Inr g \<and> shape g = ?S" .
  qed
  from create_dataset_one_shape [OF this]
  show "\<exists>ds. create_dataset pcf [e0, e1, e2, e3] False = Inr ds" by blast
next
  assume h: "(\<forall>v\<in>set (T_VARS @ U_VARS @ V_VARS @ F_VARS).
          \<exists>a. variables pcf v = Some a \<and> shape a = (n, m))
        \<and> y_index pcf = None \<and> x_index pcf = None
        \<and> inside n e0 \<and> inside n e1 \<and> inside m e2 \<and> inside m e3"
  then have i: "y_index pcf = None" "x_index pcf = None"
    "inside n e0" "inside n e1" "inside m e2" "inside m e3"
    by blast+
  let ?S = "(slice_bound n e1 - slice_bound n e0, slice_bound m e3 - slice_bound m e2)"
  have "\<forall>v\<in>set (T_VARS @ U_VARS @ V_VARS @ F_VARS).
          \<exists>g. grid_selector pcf v [e0, e1, e2, e3] True = Inr g \<and> shape g = ?S"
  proof
    fix v assume v: "v \<in> set (T_VARS @ U_VARS @ V_VARS @ F_VARS)"
    with h obtain a where "variables pcf v = Some a" "shape a = (n, m)" by blast
    from pacific_selection [OF this v i]
    show "\<exists>g. grid_selector pcf v [e0, e1, e2, e3] True = Inr g \<and> shape g = ?S" .
  qed
  from create_dataset_one_shape [OF this]
  show "\<exists>ds. create_dataset pcf [e0, e1, e2, e3] True = Inr ds
           \<and> (\<forall>p\<in>set ds. shape (snd p)
                 = (nat ((if e1 < 0 then int n + e1 else e1) - (if e0 < 0 then int n + e0 else e0)),
                    nat ((if e3 < 0 then int m + e3 else e3)
                         - (if e2 < 0 then int m + e2 else e2))))"
    by (simp only: slice_width_inside [OF i(3) i(4)] slice_width_inside [OF i(5) i(6)])
qed

text \<open>
  The amended C4 on the small grid: the Pacific dataset for \<open>[1, 3, 1, 3]\<close>, the Atlantic
  dataset of the labelled grid, and the Pacific datasets for bounds inside the grid, given
  from the start and from the end.
\<close>

theorem create_dataset_names_and_shape_witness:
  "create_dataset grid4 [1, 3, 1, 3] True = Inr pacific_patch4
   \<and> (map fst pacific_patch4 = T_VARS @ U_VARS @ V_VARS @ F_VARS
      \<and> length pacific_patch4 = 18
      \<and> distinct (map fst pacific_patch4)
      \<and> list_all (\<lambda>p. list_all (\<lambda>q. shape (snd p) = shape (snd q)) pacific_patch4)
           pacific_patch4)
   \<and> (\<exists>ds. create_dataset grid4_labelled [1, 3, 1, 3] False = Inr ds)
   \<and> (\<exists>ds. create_dataset grid4 [1, 3, 1, 3] True = Inr ds
         \<and> (\<forall>p\<in>set ds. shape (snd p) = (2, 2)))
   \<and> (\<exists>ds. create_dataset grid4 [1, - 1, 1, - 1] True = Inr ds
         \<and> (\<forall>p\<in>set ds. shape (snd p) = (2, 2)))"
proof -
  have returns: "create_dataset grid4 [1, 3, 1, 3] True = Inr pacific_patch4"
    by code_simp
  have present: "\<exists>a. variables grid4 v = Some a \<and> shape a = (4, 4)"
    "\<exists>a. variables grid4_labelled v = Some a \<and> shape a = (4, 4)"
    if "v \<in> set (T_VARS @ U_VARS @ V_VARS @ F_VARS)" for v
  proof -
    from that have "v \<in> set (T_VARS @ U_VARS @ V_VARS @ F_VARS @ [''tmask''])" by simp
    then have "variables grid4 v = Some pattern4" "variables grid4_labelled v = Some pattern4"
      by (simp_all only: grid4_lookup if_True)
    moreover have "shape pattern4 = (4, 4)" by (simp add: shape_def pattern4_def)
    ultimately show "\<exists>a. variables grid4 v = Some a \<and> shape a = (4, 4)"
      "\<exists>a. variables grid4_labelled v = Some a \<and> shape a = (4, 4)" by blast+
  qed
  have labelled: "(\<forall>v\<in>set (T_VARS @ U_VARS @ V_VARS @ F_VARS).
          \<exists>a. variables grid4_labelled v = Some a \<and> shape a = (4, 4))
        \<and> increasing (y_index grid4_labelled) \<and> increasing (x_index grid4_labelled)"
    using present(2) by (simp add: grid4_indexes increasing_def del: set_append)
  have interior: "(\<forall>v\<in>set (T_VARS @ U_VARS @ V_VARS @ F_VARS).
          \<exists>a. variables grid4 v = Some a \<and> shape a = (4, 4))
        \<and> y_index grid4 = None \<and> x_index grid4 = None
        \<and> inside 4 1 \<and> inside 4 3 \<and> inside 4 1 \<and> inside 4 3"
    using present(1) by (simp add: grid4_indexes inside_def del: set_append)
  have from_end: "(\<forall>v\<in>set (T_VARS @ U_VARS @ V_VARS @ F_VARS).
          \<exists>a. variables grid4 v = Some a \<and> shape a = (4, 4))
        \<and> y_index grid4 = None \<and> x_index grid4 = None
        \<and> inside 4 1 \<and> inside 4 (- 1) \<and> inside 4 1 \<and> inside 4 (- 1)"
    using present(1) by (simp add: grid4_indexes inside_def del: set_append)
  have names: "map fst pacific_patch4 = T_VARS @ U_VARS @ V_VARS @ F_VARS
      \<and> length pacific_patch4 = 18
      \<and> distinct (map fst pacific_patch4)
      \<and> list_all (\<lambda>p. list_all (\<lambda>q. shape (snd p) = shape (snd q)) pacific_patch4)
           pacific_patch4"
    unfolding list_all_iff
    by (rule create_dataset_names_and_shape [THEN conjunct1, THEN mp, OF returns])
  have atlantic: "\<exists>ds. create_dataset grid4_labelled [1, 3, 1, 3] False = Inr ds"
    by (rule create_dataset_names_and_shape [of grid4_labelled _ _ _ 4 4 1 3 1 3,
          THEN conjunct2, THEN conjunct1, THEN mp, OF labelled])
  have pacific: "\<exists>ds. create_dataset grid4 [1, 3, 1, 3] True = Inr ds
         \<and> (\<forall>p\<in>set ds. shape (snd p) = (2, 2))"
    using create_dataset_names_and_shape [of grid4 _ _ _ 4 4 1 3 1 3,
          THEN conjunct2, THEN conjunct2, THEN mp, OF interior]
    by simp
  have pacific_end: "\<exists>ds. create_dataset grid4 [1, - 1, 1, - 1] True = Inr ds
         \<and> (\<forall>p\<in>set ds. shape (snd p) = (2, 2))"
    using create_dataset_names_and_shape [of grid4 _ _ _ 4 4 1 "- 1" 1 "- 1",
          THEN conjunct2, THEN conjunct2, THEN mp, OF from_end]
    by simp
  show ?thesis
    by (rule conjI [OF returns conjI [OF names conjI [OF atlantic conjI [OF pacific pacific_end]]]])
qed

section \<open>Properties of main\<close>

text \<open>
  Claim C8. With \<open>x_middle\<close> the floor of half the column count, the first Atlantic
  column index is \<open>PACIFIC_X_INDICES[1] + (x_middle - PACIFIC_X_INDICES[1]) * 2 + 1\<close>, that
  is \<open>2 * x_middle - PACIFIC_X_INDICES[1] + 1\<close>, the last one is
  \<open>x_size - PACIFIC_X_INDICES[0] + 1\<close>, and the Atlantic row bounds are the constants
  \<open>7350\<close> and \<open>-1\<close>.
\<close>

theorem atl_extent_reflection:
  "x_middle pcf = \<lfloor>real (x_size pcf) / 2\<rfloor>
   \<and> atl_first_xind pcf
       = snd PACIFIC_X_INDICES + (x_middle pcf - snd PACIFIC_X_INDICES) * 2 + 1
   \<and> atl_first_xind pcf = 2 * x_middle pcf - snd PACIFIC_X_INDICES + 1
   \<and> atl_last_xind pcf = int (x_size pcf) - fst PACIFIC_X_INDICES + 1
   \<and> atl_extent pcf
       = [fst ATLANTIC_Y_INDICES, snd ATLANTIC_Y_INDICES, atl_first_xind pcf, atl_last_xind pcf]
   \<and> atl_extent pcf = [7350, -1, 2 * x_middle pcf - 5900 + 1, int (x_size pcf) - 1500 + 1]"
proof -
  have "\<lfloor>real (x_size pcf) / 2\<rfloor> = int (x_size pcf) div 2"
    by linarith
  then show ?thesis
    by (simp add: x_middle_def atl_first_xind_def atl_last_xind_def atl_extent_def
        PACIFIC_X_INDICES_def ATLANTIC_Y_INDICES_def)
qed

lemma concat_vars_keys:
  "concat_vars first second = Inr w \<Longrightarrow> map fst w = map fst first"
proof (induction first second arbitrary: w rule: concat_vars.induct)
  case (1 second)
  then show ?case by simp
next
  case (2 k a first second)
  from "2.prems" obtain b rest where b: "map_of second k = Some b" "ncols a = ncols b"
    and r: "concat_vars first second = Inr rest"
    and w: "w = (k, \<lparr>ncols = ncols a, rows = rows a @ rows b\<rparr>) # rest"
    by (auto split: option.splits if_splits sum.splits)
  from "2.IH" [OF b(1) _ r] b(2) have "map fst rest = map fst first" by simp
  with w show ?case by simp
qed

lemma concat_vars_lookup:
  "concat_vars first second = Inr w \<Longrightarrow> map_of first v = Some a \<Longrightarrow>
     \<exists>b. map_of second v = Some b
        \<and> map_of w v = Some \<lparr>ncols = ncols a, rows = rows a @ rows b\<rparr>"
proof (induction first second arbitrary: w rule: concat_vars.induct)
  case (1 second)
  then show ?case by simp
next
  case (2 k a' first second)
  from "2.prems"(1) obtain b rest where b: "map_of second k = Some b" "ncols a' = ncols b"
    and r: "concat_vars first second = Inr rest"
    and w: "w = (k, \<lparr>ncols = ncols a', rows = rows a' @ rows b\<rparr>) # rest"
    by (auto split: option.splits if_splits sum.splits)
  show ?case
  proof (cases "v = k")
    case True
    with "2.prems"(2) have "a = a'" by simp
    with True b w show ?thesis by simp
  next
    case False
    with "2.prems"(2) have "map_of first v = Some a" by simp
    from "2.IH" [OF b(1) _ r this] b(2) False w show ?thesis by simp
  qed
qed

text \<open>
  Claim C10. The output of \<open>main\<close> is the concatenation of the Atlantic dataset and the
  Pacific dataset in that order: for every configured variable, the rows of the output
  are the rows of the Atlantic array followed by the rows of the Pacific array.
\<close>

theorem concat_patches_atlantic_first:
  "whole_dataset pcf = concat_patches pcf (atl_extent pcf) pac_extent
   \<and> (concat_patches pcf atl_ext pac_ext = Inr whole \<longrightarrow>
        (\<exists>atl pac. create_dataset pcf atl_ext False = Inr atl
           \<and> create_dataset pcf pac_ext True = Inr pac
           \<and> map fst whole = T_VARS @ U_VARS @ V_VARS @ F_VARS
           \<and> (\<forall>v\<in>set (T_VARS @ U_VARS @ V_VARS @ F_VARS).
                \<exists>a b. map_of atl v = Some a \<and> map_of pac v = Some b
                  \<and> map_of whole v = Some \<lparr>ncols = ncols a, rows = rows a @ rows b\<rparr>)))"
proof (intro conjI impI)
  show "whole_dataset pcf = concat_patches pcf (atl_extent pcf) pac_extent"
    by (simp only: whole_dataset_def)
next
  assume r: "concat_patches pcf atl_ext pac_ext = Inr whole"
  let ?vars = "T_VARS @ U_VARS @ V_VARS @ F_VARS"
  obtain atl where atl: "create_dataset pcf atl_ext False = Inr atl"
    using r by (cases "create_dataset pcf atl_ext False")
      (simp_all only: concat_patches_def sum.case sum.distinct)
  obtain pac where pac: "create_dataset pcf pac_ext True = Inr pac"
    using r atl by (cases "create_dataset pcf pac_ext True")
      (simp_all only: concat_patches_def sum.case sum.distinct)
  have x: "xr_concat_y atl pac = Inr whole"
    using r by (simp only: concat_patches_def atl pac sum.case)
  then have c: "concat_vars atl pac = Inr whole"
    by (simp add: xr_concat_y_def split: if_splits)
  have ka: "map fst atl = ?vars"
    using collect_keys [OF create_dataset_Inr(1) [OF atl]] all_vars_distinct
    by (simp only: list.map append_Nil)
  have kw: "map fst whole = ?vars"
    using concat_vars_keys [OF c] ka by (simp only:)
  have each: "\<exists>a b. map_of atl v = Some a \<and> map_of pac v = Some b
                  \<and> map_of whole v = Some \<lparr>ncols = ncols a, rows = rows a @ rows b\<rparr>"
    if "v \<in> set ?vars" for v
  proof -
    from that ka have "v \<in> set (map fst atl)" by (simp only:)
    then have "v \<in> fst ` set atl" by (simp only: set_map)
    then obtain a where a: "map_of atl v = Some a"
      using map_of_eq_None_iff [of atl v] by (cases "map_of atl v") simp_all
    from concat_vars_lookup [OF c a] a show ?thesis by blast
  qed
  have "create_dataset pcf atl_ext False = Inr atl
           \<and> create_dataset pcf pac_ext True = Inr pac
           \<and> map fst whole = ?vars
           \<and> (\<forall>v\<in>set ?vars.
                \<exists>a b. map_of atl v = Some a \<and> map_of pac v = Some b
                  \<and> map_of whole v = Some \<lparr>ncols = ncols a, rows = rows a @ rows b\<rparr>)"
    using atl pac kw each by (intro conjI ballI)
  then show "\<exists>atl pac. create_dataset pcf atl_ext False = Inr atl
           \<and> create_dataset pcf pac_ext True = Inr pac
           \<and> map fst whole = ?vars
           \<and> (\<forall>v\<in>set ?vars.
                \<exists>a b. map_of atl v = Some a \<and> map_of pac v = Some b
                  \<and> map_of whole v = Some \<lparr>ncols = ncols a, rows = rows a @ rows b\<rparr>)"
    by (intro exI [of _ atl] exI [of _ pac])
qed

text \<open>C10 on the small grid: two Atlantic rows, then two mirrored Pacific rows.\<close>

theorem concat_patches_atlantic_first_witness:
  "concat_patches grid4 [0, 2, 1, 3] [1, 3, 1, 3] = Inr whole4
   \<and> (\<exists>atl pac. create_dataset grid4 [0, 2, 1, 3] False = Inr atl
           \<and> create_dataset grid4 [1, 3, 1, 3] True = Inr pac
           \<and> map fst whole4 = T_VARS @ U_VARS @ V_VARS @ F_VARS
           \<and> (\<forall>v\<in>set (T_VARS @ U_VARS @ V_VARS @ F_VARS).
                \<exists>a b. map_of atl v = Some a \<and> map_of pac v = Some b
                  \<and> map_of whole4 v = Some \<lparr>ncols = ncols a, rows = rows a @ rows b\<rparr>))
   \<and> map_of whole4 ''glamu''
       = Some \<lparr>ncols = 2, rows = [[1, 2], [101, 102], [201, 200], [101, 100]]\<rparr>"
proof -
  have returns: "concat_patches grid4 [0, 2, 1, 3] [1, 3, 1, 3] = Inr whole4"
    by code_simp
  have glamu: "map_of whole4 ''glamu''
       = Some \<lparr>ncols = 2, rows = [[1, 2], [101, 102], [201, 200], [101, 100]]\<rparr>"
    by code_simp
  show ?thesis
    by (rule conjI [OF returns conjI
          [OF concat_patches_atlantic_first [THEN conjunct2, THEN mp, OF returns] glamu]])
qed

end
